theory Spec2Isabelle
  imports Main "HOL-Library.Word"
begin

unbundle bit_operations_syntax

section \<open>Fixed-point driver for HLO passes (\<^verbatim>\<open>HloPassFix\<close>)\<close>

text \<open>
  \<^verbatim>\<open>HloPassFix<Pass>\<close> wraps a pass and runs it until an iteration reports no change.
  A pass mutates the module in place and returns \<^verbatim>\<open>StatusOr<bool>\<close>: the model passes the
  module explicitly and returns the new module beside the result, \<open>Inl status\<close> for a
  non-OK status and \<open>Inr changed\<close> otherwise. The error type and the module type are
  left open.
\<close>

type_synonym int64 = "64 word"

type_synonym ('e, 'm) hlo_pass = "'m \<Rightarrow> ('e + bool) \<times> 'm"

definition kLimit :: int64 where
  "kLimit = 25"

text \<open>
  The \<^verbatim>\<open>while (changed_this_iteration)\<close> loop of \<^verbatim>\<open>Run\<close>, with the loop variables
  \<^verbatim>\<open>changed\<close>, \<^verbatim>\<open>changed_this_iteration\<close> and \<^verbatim>\<open>iteration_count\<close> as arguments.
  \<^verbatim>\<open>TF_ASSIGN_OR_RETURN\<close> returns the pass's status at once when it is not OK.
  The counter is a 64-bit integer that is compared with \<^verbatim>\<open>kLimit\<close> for equality after
  every increment; the distance to \<^verbatim>\<open>kLimit - 1\<close> measures termination. Started at 0, as
  \<^verbatim>\<open>Run\<close> does, the counter stays below 25 and never wraps.
\<close>

function HloPassFix_loop ::
  "('e, 'm) hlo_pass \<Rightarrow> bool \<Rightarrow> bool \<Rightarrow> int64 \<Rightarrow> 'm \<Rightarrow> ('e + bool) \<times> 'm"
where
  "HloPassFix_loop pass changed changed_this_iteration iteration_count module =
     (if changed_this_iteration then
        (case pass module of
           (Inl status, module') \<Rightarrow> (Inl status, module')
         | (Inr changed_this_iteration', module') \<Rightarrow>
             (let changed' = (changed \<or> changed_this_iteration');
                  iteration_count' = iteration_count + 1
              in if iteration_count' = kLimit then (Inr False, module')
                 else HloPassFix_loop pass changed' changed_this_iteration'
                        iteration_count' module'))
      else (Inr changed, module))"
  by pat_completeness auto
termination
proof (relation "measure (\<lambda>(pass, changed, cti, ic, module). unat (kLimit - 1 - ic))")
  show "wf (measure (\<lambda>(pass, changed, cti, ic, module). unat (kLimit - 1 - ic)))"
    by simp
next
  fix pass :: "('e, 'm) hlo_pass" and changed cti :: bool and ic xb :: int64
    and module :: 'm and x y xa c
  assume xb: "xb = ic + 1" and ne: "xb \<noteq> kLimit"
  define d where "d = kLimit - 1 - ic"
  have nz: "d \<noteq> 0"
    using xb ne by (simp add: d_def algebra_simps)
  have step: "kLimit - 1 - xb = d - 1"
    by (simp add: xb d_def)
  have "unat (d - 1) = unat d - 1"
    using nz by (rule unat_minus_one)
  moreover have "0 < unat d"
    using nz by (simp add: unat_gt_0)
  ultimately have "unat (d - 1) < unat d"
    by linarith
  then have "unat (kLimit - 1 - xb) < unat (kLimit - 1 - ic)"
    by (simp only: step) (simp only: d_def)
  then show "((pass, xa, c, xb, y), pass, changed, cti, ic, module)
       \<in> measure (\<lambda>(pass, changed, cti, ic, module). unat (kLimit - 1 - ic))"
    by simp
qed

declare HloPassFix_loop.simps [simp del]

text \<open>
  \<^verbatim>\<open>Run\<close> and \<^verbatim>\<open>RunOnModuleGroup\<close> initialise the loop variables identically
  (\<^verbatim>\<open>changed = false\<close>, \<^verbatim>\<open>changed_this_iteration = true\<close>, \<^verbatim>\<open>iteration_count = 0\<close>) and
  run the same loop, the first over \<^verbatim>\<open>Pass::Run\<close> and a module, the second over
  \<^verbatim>\<open>Pass::RunOnModuleGroup\<close> and a module group.
\<close>

definition Run :: "('e, 'm) hlo_pass \<Rightarrow> 'm \<Rightarrow> ('e + bool) \<times> 'm" where
  "Run pass_run module = HloPassFix_loop pass_run False True 0 module"

definition RunOnModuleGroup :: "('e, 'g) hlo_pass \<Rightarrow> 'g \<Rightarrow> ('e + bool) \<times> 'g" where
  "RunOnModuleGroup pass_run_on_module_group module_group =
     HloPassFix_loop pass_run_on_module_group False True 0 module_group"

text \<open>
  To speak about the invocations of the wrapped pass, \<open>logged pass\<close> is the pass that
  behaves as \<open>pass\<close> on the module and appends the result of every invocation to a log
  carried beside the module.
\<close>

definition logged :: "('e, 'm) hlo_pass \<Rightarrow> ('e, 'm \<times> ('e + bool) list) hlo_pass" where
  "logged pass = (\<lambda>(module, log). case pass module of (r, module') \<Rightarrow> (r, (module', log @ [r])))"

text \<open>Two passes over a counter, for concrete runs.\<close>

definition countdown :: "(unit, nat) hlo_pass" where
  "countdown n = (Inr (0 < n), n - 1)"

definition always_changing :: "(unit, nat) hlo_pass" where
  "always_changing n = (Inr True, n + 1)"


text \<open>
  The shape of a run that starts with \<open>k\<close> iterations already counted, \<open>changed = ch\<close>
  and \<open>changed_this_iteration = true\<close>: \<open>new\<close> lists the results of the invocations
  the run makes and \<open>r\<close> is what the run returns. At least one invocation is made, the
  counter never passes 25, every invocation but the last reported a change, and the last
  one decides the result: its status when it failed, \<open>false\<close> when the counter reached
  the limit, and otherwise it reported no change and the accumulated flag is returned.
\<close>

definition run_shape ::
  "nat \<Rightarrow> bool \<Rightarrow> ('e + bool) \<Rightarrow> ('e + bool) list \<Rightarrow> bool" where
  "run_shape k ch r new \<longleftrightarrow>
     new \<noteq> [] \<and> k + length new \<le> 25 \<and>
     (\<forall>i. Suc i < length new \<longrightarrow> new ! i = Inr True) \<and>
     (case last new of
        Inl status \<Rightarrow> r = Inl status
      | Inr c \<Rightarrow> if k + length new = 25 then r = Inr False
                 else \<not> c \<and> r = Inr (ch \<or> Inr True \<in> set new))"

text \<open>
  The same for a whole run: \<open>logged_result\<close> is what the driver returns over the logged
  pass started with an empty log, \<open>plain_result\<close> what it returns over the pass itself.
\<close>

definition iterations_ok ::
  "('e + bool) \<times> 'm \<times> ('e + bool) list \<Rightarrow> ('e + bool) \<times> 'm \<Rightarrow> bool" where
  "iterations_ok logged_result plain_result \<longleftrightarrow>
     (case logged_result of (r, module', log) \<Rightarrow>
        plain_result = (r, module') \<and> log \<noteq> [] \<and> length log \<le> 25 \<and>
        (\<forall>i. Suc i < length log \<longrightarrow> log ! i = Inr True) \<and>
        (case last log of
           Inl status \<Rightarrow> r = Inl status
         | Inr c \<Rightarrow> if length log = 25 then r = Inr False
                    else \<not> c \<and> r = Inr (Inr True \<in> set log)))"


section \<open>Convolution parameters (\<^verbatim>\<open>ConvParameters\<close>)\<close>

text \<open>
  \<^verbatim>\<open>int64\<close> and \<^verbatim>\<open>uint64\<close> are 64-bit words and \<^verbatim>\<open>int\<close> is a 32-bit word; a
  \<^verbatim>\<open>SpatialArray\<close> (\<^verbatim>\<open>gtl::InlinedVector<int64, 3>\<close>) is a list. The enumerations
  \<^verbatim>\<open>TensorFormat\<close> and \<^verbatim>\<open>DataType\<close> are declared in headers that are not part of these files; a
  value of either is represented by its integer value.
\<close>

type_synonym uint64 = "64 word"
type_synonym int32 = "32 word"
type_synonym SpatialArray = "int64 list"
type_synonym TensorFormat = int32
type_synonym DataType = int32

text \<open>
  The members of the class, in declaration order, with \<^verbatim>\<open>hash_code_\<close> last. A member
  \<^verbatim>\<open>x_\<close> is the field \<open>cp_x\<close>.
\<close>

record ConvParameters =
  cp_batch :: int64
  cp_in_depths :: int64
  cp_out_depths :: int64
  cp_in :: SpatialArray
  cp_data_format :: TensorFormat
  cp_filter :: SpatialArray
  cp_dilation :: SpatialArray
  cp_stride :: SpatialArray
  cp_padding :: SpatialArray
  cp_dtype :: DataType
  cp_device_id :: int32
  cp_group_count :: int32
  cp_hash_code :: uint64

text \<open>
  Modelled from the accessors used by the source: the message \<^verbatim>\<open>ConvParamsProto\<close> is
  generated from a protocol-buffer declaration that is not among the sources. Every field
  has the type of the member that \<^verbatim>\<open>ToProto\<close> stores into it and the constructor reads
  back from it; \<^verbatim>\<open>data_format\<close> holds the integer value of the \<^verbatim>\<open>TensorFormat\<close>, which
  the constructor casts back. A field \<^verbatim>\<open>x\<close> of the message is \<open>pb_x\<close>.
\<close>

record ConvParamsProto =
  pb_batch :: int64
  pb_in_depths :: int64
  pb_out_depths :: int64
  pb_in :: "int64 list"
  pb_data_format :: int32
  pb_filter :: "int64 list"
  pb_dilation :: "int64 list"
  pb_stride :: "int64 list"
  pb_padding :: "int64 list"
  pb_dtype :: DataType
  pb_device_id :: int32
  pb_group_count :: int32

text \<open>
  \<^verbatim>\<open>CHECK_LE(array.size(), 3)\<close> aborts the process when it fails: \<open>None\<close>.
\<close>

definition CheckSpatialArraySize :: "SpatialArray \<Rightarrow> SpatialArray option" where
  "CheckSpatialArraySize array = (if length array \<le> 3 then Some array else None)"

text \<open>
  \<^verbatim>\<open>Hash64Combine\<close> is defined in a header that is not part of these files and is a
  parameter. Its arguments are \<^verbatim>\<open>uint64\<close>: an \<^verbatim>\<open>int64\<close> converts with the same bits,
  an \<^verbatim>\<open>int\<close> or an enumeration value by sign extension.
\<close>

definition UpdateHash :: "(uint64 \<Rightarrow> uint64 \<Rightarrow> uint64) \<Rightarrow> ConvParameters \<Rightarrow> ConvParameters" where
  "UpdateHash Hash64Combine p =
     (let hash_code = cp_batch p;
          hash_code = Hash64Combine hash_code (cp_in_depths p);
          hash_code = foldl Hash64Combine hash_code (cp_in p);
          hash_code = Hash64Combine hash_code (scast (cp_data_format p));
          hash_code = Hash64Combine hash_code (cp_out_depths p);
          hash_code = foldl Hash64Combine hash_code (cp_filter p);
          hash_code = foldl Hash64Combine hash_code (cp_dilation p);
          hash_code = foldl Hash64Combine hash_code (cp_stride p);
          hash_code = foldl Hash64Combine hash_code (cp_padding p);
          hash_code = Hash64Combine hash_code (scast (cp_dtype p));
          hash_code = Hash64Combine hash_code (scast (cp_device_id p));
          hash_code = Hash64Combine hash_code (scast (cp_group_count p))
      in p\<lparr>cp_hash_code := hash_code\<rparr>)"

text \<open>
  The two constructors. The member initialisers check the spatial arrays in the order
  \<^verbatim>\<open>in\<close>, \<^verbatim>\<open>filter\<close>, \<^verbatim>\<open>dilation\<close>, \<^verbatim>\<open>stride\<close>, \<^verbatim>\<open>padding\<close>; the body calls
  \<^verbatim>\<open>UpdateHash\<close>, which overwrites \<^verbatim>\<open>hash_code_\<close> whatever it held.
\<close>

definition ConvParameters_init ::
  "(uint64 \<Rightarrow> uint64 \<Rightarrow> uint64) \<Rightarrow> int64 \<Rightarrow> int64 \<Rightarrow> SpatialArray \<Rightarrow> TensorFormat \<Rightarrow> int64 \<Rightarrow>
   SpatialArray \<Rightarrow> SpatialArray \<Rightarrow> SpatialArray \<Rightarrow> SpatialArray \<Rightarrow> DataType \<Rightarrow> int32 \<Rightarrow> int32 \<Rightarrow>
   ConvParameters option" where
  "ConvParameters_init Hash64Combine batch in_depths in0 data_format out_depths filter0 dilation
     stride padding dtype device_id group_count =
     (case CheckSpatialArraySize in0 of None \<Rightarrow> None | Some in1 \<Rightarrow>
      case CheckSpatialArraySize filter0 of None \<Rightarrow> None | Some filter1 \<Rightarrow>
      case CheckSpatialArraySize dilation of None \<Rightarrow> None | Some dilation1 \<Rightarrow>
      case CheckSpatialArraySize stride of None \<Rightarrow> None | Some stride1 \<Rightarrow>
      case CheckSpatialArraySize padding of None \<Rightarrow> None | Some padding1 \<Rightarrow>
        Some (UpdateHash Hash64Combine
          \<lparr>cp_batch = batch, cp_in_depths = in_depths, cp_out_depths = out_depths, cp_in = in1,
           cp_data_format = data_format, cp_filter = filter1, cp_dilation = dilation1,
           cp_stride = stride1, cp_padding = padding1, cp_dtype = dtype,
           cp_device_id = device_id, cp_group_count = group_count, cp_hash_code = 0\<rparr>))"

definition ConvParameters_of_proto ::
  "(uint64 \<Rightarrow> uint64 \<Rightarrow> uint64) \<Rightarrow> ConvParamsProto \<Rightarrow> ConvParameters option" where
  "ConvParameters_of_proto Hash64Combine proto =
     (case CheckSpatialArraySize (pb_in proto) of None \<Rightarrow> None | Some in1 \<Rightarrow>
      case CheckSpatialArraySize (pb_filter proto) of None \<Rightarrow> None | Some filter1 \<Rightarrow>
      case CheckSpatialArraySize (pb_dilation proto) of None \<Rightarrow> None | Some dilation1 \<Rightarrow>
      case CheckSpatialArraySize (pb_stride proto) of None \<Rightarrow> None | Some stride1 \<Rightarrow>
      case CheckSpatialArraySize (pb_padding proto) of None \<Rightarrow> None | Some padding1 \<Rightarrow>
        Some (UpdateHash Hash64Combine
          \<lparr>cp_batch = pb_batch proto, cp_in_depths = pb_in_depths proto,
           cp_out_depths = pb_out_depths proto, cp_in = in1,
           cp_data_format = pb_data_format proto, cp_filter = filter1,
           cp_dilation = dilation1, cp_stride = stride1, cp_padding = padding1,
           cp_dtype = pb_dtype proto, cp_device_id = pb_device_id proto,
           cp_group_count = pb_group_count proto, cp_hash_code = 0\<rparr>))"

text \<open>\<^verbatim>\<open>operator==\<close> compares the tuples of the twelve data members.\<close>

definition get_data_as_tuple ::
  "ConvParameters \<Rightarrow> int64 \<times> int64 \<times> SpatialArray \<times> TensorFormat \<times> int64 \<times> SpatialArray \<times>
     SpatialArray \<times> SpatialArray \<times> SpatialArray \<times> DataType \<times> int32 \<times> int32" where
  "get_data_as_tuple p =
     (cp_batch p, cp_in_depths p, cp_in p, cp_data_format p, cp_out_depths p, cp_filter p,
      cp_dilation p, cp_stride p, cp_padding p, cp_dtype p, cp_device_id p, cp_group_count p)"

definition ConvParameters_eq :: "ConvParameters \<Rightarrow> ConvParameters \<Rightarrow> bool" where
  "ConvParameters_eq this other \<longleftrightarrow> get_data_as_tuple this = get_data_as_tuple other"

definition hash :: "ConvParameters \<Rightarrow> uint64" where
  "hash p = cp_hash_code p"

text \<open>
  \<^verbatim>\<open>ToProto\<close> starts from a default message and sets the fields in the order of the
  source; a repeated field grows by one element per \<^verbatim>\<open>Add\<close>.
\<close>

definition Add :: "int64 list \<Rightarrow> int64 \<Rightarrow> int64 list" where
  "Add field v = field @ [v]"

definition ToProto :: "ConvParameters \<Rightarrow> ConvParamsProto" where
  "ToProto p =
     (let proto = \<lparr>pb_batch = 0, pb_in_depths = 0, pb_out_depths = 0, pb_in = [],
                    pb_data_format = 0, pb_filter = [], pb_dilation = [], pb_stride = [],
                    pb_padding = [], pb_dtype = 0, pb_device_id = 0, pb_group_count = 0\<rparr>;
          proto = proto\<lparr>pb_batch := cp_batch p\<rparr>;
          proto = proto\<lparr>pb_in_depths := cp_in_depths p\<rparr>;
          proto = proto\<lparr>pb_out_depths := cp_out_depths p\<rparr>;
          proto = foldl (\<lambda>proto each_in. proto\<lparr>pb_in := Add (pb_in proto) each_in\<rparr>) proto (cp_in p);
          proto = proto\<lparr>pb_data_format := cp_data_format p\<rparr>;
          proto = foldl (\<lambda>proto each_filter. proto\<lparr>pb_filter := Add (pb_filter proto) each_filter\<rparr>)
                    proto (cp_filter p);
          proto = foldl (\<lambda>proto each_dilation. proto\<lparr>pb_dilation := Add (pb_dilation proto) each_dilation\<rparr>)
                    proto (cp_dilation p);
          proto = foldl (\<lambda>proto each_stride. proto\<lparr>pb_stride := Add (pb_stride proto) each_stride\<rparr>)
                    proto (cp_stride p);
          proto = foldl (\<lambda>proto each_padding. proto\<lparr>pb_padding := Add (pb_padding proto) each_padding\<rparr>)
                    proto (cp_padding p);
          proto = proto\<lparr>pb_dtype := cp_dtype p\<rparr>;
          proto = proto\<lparr>pb_device_id := cp_device_id p\<rparr>;
          proto = proto\<lparr>pb_group_count := cp_group_count p\<rparr>
      in proto)"

text \<open>A combining function and an object, for concrete runs.\<close>

definition example_combine :: "uint64 \<Rightarrow> uint64 \<Rightarrow> uint64" where
  "example_combine a b = a XOR (b + 0x9e3779b97f4a7800 + push_bit 10 a + drop_bit 4 a)"

text \<open>
  What both constructors establish and no other member changes: every spatial array has
  at most three elements, and \<^verbatim>\<open>hash_code_\<close> is the value \<^verbatim>\<open>UpdateHash\<close> computes from
  the data members.
\<close>

definition spatial_sizes_ok :: "ConvParameters \<Rightarrow> bool" where
  "spatial_sizes_ok p \<longleftrightarrow>
     length (cp_in p) \<le> 3 \<and> length (cp_filter p) \<le> 3 \<and> length (cp_dilation p) \<le> 3 \<and>
     length (cp_stride p) \<le> 3 \<and> length (cp_padding p) \<le> 3"

definition constructed :: "(uint64 \<Rightarrow> uint64 \<Rightarrow> uint64) \<Rightarrow> ConvParameters \<Rightarrow> bool" where
  "constructed Hash64Combine p \<longleftrightarrow>
     spatial_sizes_ok p \<and> cp_hash_code p = cp_hash_code (UpdateHash Hash64Combine p)"

definition example_params :: ConvParameters where
  "example_params =
     \<lparr>cp_batch = 1, cp_in_depths = 2, cp_out_depths = 5, cp_in = [3, 4],
      cp_data_format = 0, cp_filter = [1, 1], cp_dilation = [1, 1],
      cp_stride = [1, 1], cp_padding = [0, 0], cp_dtype = 1,
      cp_device_id = 0, cp_group_count = 1,
      cp_hash_code = 14161303925198268106\<rparr>"


section \<open>The compilation cache (\<^verbatim>\<open>XlaCompilationCache\<close>)\<close>

text \<open>
  The header declares the data of the cache; the enumerations, the structures and the
  constants below are taken from it.
\<close>

datatype CompileMode = kLazy | kStrict | kAsync

datatype CompileState = kUncompiled | kCompiling | kCompiled

text \<open>
  \<^verbatim>\<open>Status\<close> is declared in a header that is not part of these files: a status is \<open>OK\<close> or an error of
  one of the classes the specification lists, with a diagnostic.
\<close>

datatype error_class = InvalidArgument | CompileFailure | ResourceExhausted | Internal

datatype Status = OK | Error error_class string

text \<open>The key of the cache. The tensor type \<open>'t\<close> is left open.\<close>

record 't Signature =
  name :: string
  arg_shapes :: "(DataType \<times> int64 list) list"
  arg_values :: "'t list"

text \<open>
  The value of a cache entry, without its mutex. The compilation result type \<open>'r\<close> and
  the executable type \<open>'x\<close> are left open; the result is absent until a compilation has
  succeeded, and the executable pointer may be null.
\<close>

record ('r, 'x) Entry =
  compile_state :: CompileState
  request_count :: int64
  compilation_status :: Status
  compilation_result :: "'r option"
  executable :: "'x option"

record ClusterCompileStats =
  compile_count :: int64
  execution_count :: int64
  cumulative_compile_time_us :: int64
  max_compile_time_s :: uint64
  is_megamorphic :: bool

definition kNrofCompilerThreads :: int64 where
  "kNrofCompilerThreads = 10"

definition kMaxNrofOngoingCompilations :: int64 where
  "kMaxNrofOngoingCompilations = kNrofCompilerThreads"

definition kDefaultCompilationThreshold :: int64 where
  "kDefaultCompilationThreshold = 0"

text \<open>
  The members of the cache that hold state: the table of entries, the statistics per
  cluster name and the number of ongoing asynchronous compilations. The last field is not
  a member of the class: it lists the signatures the external compiler has been invoked
  on, in order, so that invocations can be counted.
\<close>

record ('t, 'r, 'x) XlaCompilationCache =
  cache :: "'t Signature \<rightharpoonup> ('r, 'x) Entry"
  cluster_compile_stats :: "string \<rightharpoonup> ClusterCompileStats"
  nrof_ongoing_compilations :: int64
  compiler_invocations :: "'t Signature list"

text \<open>
  The external compiler. One invocation either produces a result and possibly an
  executable, or fails with an error; it also takes some time. The compiler may answer
  differently each time it is asked: it is given the number of invocations made before.
\<close>

datatype ('r, 'x) compile_outcome = Compile_ok 'r "'x option" | Compile_failed error_class string

type_synonym ('t, 'r, 'x) Compiler = "nat \<Rightarrow> 't Signature \<Rightarrow> ('r, 'x) compile_outcome \<times> int64"

text \<open>
  The recognised options: the threshold of lazy compilation, the cap on ongoing
  asynchronous compilations and the megamorphic heuristic, a predicate on the statistics
  of a cluster.
\<close>

record Options =
  compilation_threshold :: int64
  async_max_in_flight :: int64
  should_be_megamorphic :: "ClusterCompileStats \<Rightarrow> bool"

definition default_options :: "(ClusterCompileStats \<Rightarrow> bool) \<Rightarrow> Options" where
  "default_options heuristic =
     \<lparr>compilation_threshold = kDefaultCompilationThreshold,
      async_max_in_flight = kMaxNrofOngoingCompilations,
      should_be_megamorphic = heuristic\<rparr>"

text \<open>
  Modelled from the spec: the member functions of \<^verbatim>\<open>XlaCompilationCache\<close> are declared
  in the header and defined in a file that is not among the sources. The definitions from
  here to \<open>run\<close> follow the specification's sections on the data model (3), the cache
  table (4.1), the decision policy and the state machine of an entry (4.2), the
  asynchronous coordinator (4.3), blocking (5) and error handling (7).

  An entry is created in state \<^verbatim>\<open>kUncompiled\<close> with a request count of 0 the first time
  its signature is seen, and is never deleted.
\<close>

definition new_entry :: "('r, 'x) Entry" where
  "new_entry =
     \<lparr>compile_state = kUncompiled, request_count = 0, compilation_status = OK,
      compilation_result = None, executable = None\<rparr>"

definition get_or_create ::
  "'t Signature \<Rightarrow> ('t, 'r, 'x) XlaCompilationCache \<Rightarrow> ('t, 'r, 'x) XlaCompilationCache" where
  "get_or_create signature c =
     (case cache c signature of
        Some e \<Rightarrow> c
      | None \<Rightarrow> c\<lparr>cache := (cache c)(signature \<mapsto> new_entry)\<rparr>)"

definition entry_of :: "('t, 'r, 'x) XlaCompilationCache \<Rightarrow> 't Signature \<Rightarrow> ('r, 'x) Entry" where
  "entry_of c signature = (case cache c signature of Some e \<Rightarrow> e | None \<Rightarrow> new_entry)"

text \<open>
  The statistics of a cluster name are created on the first compile attempt for the name
  and updated after every attempt. The megamorphic flag is set when the heuristic says
  so and is never cleared.
\<close>

definition new_stats :: ClusterCompileStats where
  "new_stats =
     \<lparr>compile_count = 0, execution_count = 0, cumulative_compile_time_us = 0,
      max_compile_time_s = 0, is_megamorphic = False\<rparr>"

definition stats_of :: "('t, 'r, 'x) XlaCompilationCache \<Rightarrow> string \<Rightarrow> ClusterCompileStats" where
  "stats_of c cluster = (case cluster_compile_stats c cluster of Some st \<Rightarrow> st | None \<Rightarrow> new_stats)"

definition record_attempt :: "Options \<Rightarrow> int64 \<Rightarrow> ClusterCompileStats \<Rightarrow> ClusterCompileStats" where
  "record_attempt options time_us st =
     (let time_s = time_us div 1000000;
          st = st\<lparr>compile_count := compile_count st + 1,
                  cumulative_compile_time_us := cumulative_compile_time_us st + time_us,
                  max_compile_time_s := max (max_compile_time_s st) time_s\<rparr>
      in st\<lparr>is_megamorphic := is_megamorphic st \<or> should_be_megamorphic options st\<rparr>)"

text \<open>
  The transitions of an entry. \<open>begin_compilation\<close> is the transition from
  \<^verbatim>\<open>kUncompiled\<close> to \<^verbatim>\<open>kCompiling\<close>. \<open>finish_compilation\<close> is the compilation itself, of an
  entry in state \<^verbatim>\<open>kCompiling\<close>: the compiler is invoked, the entry moves to
  \<^verbatim>\<open>kCompiled\<close> with the result or with the error status, and the statistics of the
  cluster are updated.
\<close>

definition begin_compilation ::
  "'t Signature \<Rightarrow> ('t, 'r, 'x) XlaCompilationCache \<Rightarrow> ('t, 'r, 'x) XlaCompilationCache" where
  "begin_compilation signature c =
     c\<lparr>cache := (cache c)(signature \<mapsto> (entry_of c signature)\<lparr>compile_state := kCompiling\<rparr>)\<rparr>"

definition record_outcome :: "('r, 'x) compile_outcome \<Rightarrow> ('r, 'x) Entry \<Rightarrow> ('r, 'x) Entry" where
  "record_outcome outcome e =
     (case outcome of
        Compile_ok result exe \<Rightarrow>
          e\<lparr>compile_state := kCompiled, compilation_status := OK,
            compilation_result := Some result, executable := exe\<rparr>
      | Compile_failed cls diagnostic \<Rightarrow>
          e\<lparr>compile_state := kCompiled, compilation_status := Error cls diagnostic\<rparr>)"

definition finish_compilation ::
  "('t, 'r, 'x) Compiler \<Rightarrow> Options \<Rightarrow> 't Signature \<Rightarrow>
   ('t, 'r, 'x) XlaCompilationCache \<Rightarrow> ('t, 'r, 'x) XlaCompilationCache" where
  "finish_compilation compiler options signature c =
     (if compile_state (entry_of c signature) = kCompiling then
        (case compiler (length (compiler_invocations c)) signature of
           (outcome, time_us) \<Rightarrow>
             c\<lparr>cache := (cache c)(signature \<mapsto> record_outcome outcome (entry_of c signature)),
               cluster_compile_stats := (cluster_compile_stats c)
                 (name signature \<mapsto> record_attempt options time_us (stats_of c (name signature))),
               compiler_invocations := compiler_invocations c @ [signature]\<rparr>)
      else c)"

text \<open>
  The coordinator of asynchronous compilations. \<open>submit\<close> accepts a job only while the
  number of ongoing compilations is below the cap; an accepted job moves its entry to
  \<^verbatim>\<open>kCompiling\<close>. \<open>job_done\<close> is the completion of the job of an entry: the compilation
  is carried out and the counter is decremented.
\<close>

definition submit ::
  "Options \<Rightarrow> 't Signature \<Rightarrow> ('t, 'r, 'x) XlaCompilationCache \<Rightarrow>
   bool \<times> ('t, 'r, 'x) XlaCompilationCache" where
  "submit options signature c =
     (if sint (nrof_ongoing_compilations c) < sint (async_max_in_flight options) then
        (True, (begin_compilation signature c)
                 \<lparr>nrof_ongoing_compilations := nrof_ongoing_compilations c + 1\<rparr>)
      else (False, c))"

definition job_done ::
  "('t, 'r, 'x) Compiler \<Rightarrow> Options \<Rightarrow> 't Signature \<Rightarrow>
   ('t, 'r, 'x) XlaCompilationCache \<Rightarrow> ('t, 'r, 'x) XlaCompilationCache" where
  "job_done compiler options signature c =
     (if compile_state (entry_of c signature) = kCompiling then
        (finish_compilation compiler options signature c)
          \<lparr>nrof_ongoing_compilations := nrof_ongoing_compilations c - 1\<rparr>
      else c)"

text \<open>
  What a caller receives: the status, and the result and the executable when there are
  any. A recorded failure is replayed as it is, without a result.
\<close>

type_synonym ('r, 'x) reply = "Status \<times> 'r option \<times> 'x option"

definition not_compiled :: "('r, 'x) reply" where
  "not_compiled = (OK, None, None)"

definition reply_of :: "('r, 'x) Entry \<Rightarrow> ('r, 'x) reply" where
  "reply_of e =
     (if compilation_status e = OK then (OK, compilation_result e, executable e)
      else (compilation_status e, None, None))"

text \<open>
  One request of a caller, from the lookup to the return. The lookup creates the entry
  when needed and increments its request count. A compiled entry answers from what it
  recorded. An entry found in state \<^verbatim>\<open>kCompiling\<close> has a job in flight: the caller waits
  until that compilation completes and reads its result. For an uncompiled entry the
  policy decides: nothing is compiled for a megamorphic cluster; strict mode compiles
  now; lazy mode compiles now unless the request count is below the threshold;
  asynchronous mode submits a job and returns without a result, also when the job is
  declined.
\<close>

definition compile_now ::
  "('t, 'r, 'x) Compiler \<Rightarrow> Options \<Rightarrow> 't Signature \<Rightarrow>
   ('t, 'r, 'x) XlaCompilationCache \<Rightarrow> ('r, 'x) reply \<times> ('t, 'r, 'x) XlaCompilationCache" where
  "compile_now compiler options signature c =
     (let c = finish_compilation compiler options signature (begin_compilation signature c)
      in (reply_of (entry_of c signature), c))"

definition decide_and_compile ::
  "('t, 'r, 'x) Compiler \<Rightarrow> Options \<Rightarrow> 't Signature \<Rightarrow> CompileMode \<Rightarrow>
   ('t, 'r, 'x) XlaCompilationCache \<Rightarrow> ('r, 'x) reply \<times> ('t, 'r, 'x) XlaCompilationCache" where
  "decide_and_compile compiler options signature mode c =
     (let e = entry_of c signature;
          e = e\<lparr>request_count := request_count e + 1\<rparr>;
          c = c\<lparr>cache := (cache c)(signature \<mapsto> e)\<rparr>
      in case compile_state e of
           kCompiled \<Rightarrow> (reply_of e, c)
         | kCompiling \<Rightarrow>
             (let c = job_done compiler options signature c
              in (reply_of (entry_of c signature), c))
         | kUncompiled \<Rightarrow>
             if is_megamorphic (stats_of c (name signature)) then (not_compiled, c)
             else (case mode of
                     kStrict \<Rightarrow> compile_now compiler options signature c
                   | kLazy \<Rightarrow>
                       if sint (request_count e) < sint (compilation_threshold options)
                       then (not_compiled, c)
                       else compile_now compiler options signature c
                   | kAsync \<Rightarrow> (not_compiled, snd (submit options signature c))))"

definition Compile ::
  "('t, 'r, 'x) Compiler \<Rightarrow> Options \<Rightarrow> 't Signature \<Rightarrow> CompileMode \<Rightarrow>
   ('t, 'r, 'x) XlaCompilationCache \<Rightarrow> ('r, 'x) reply \<times> ('t, 'r, 'x) XlaCompilationCache" where
  "Compile compiler options signature mode c =
     decide_and_compile compiler options signature mode (get_or_create signature c)"

text \<open>
  The cache evolves by requests of callers and completions of background jobs, in any
  order.
\<close>

datatype 't event = Request "'t Signature" CompileMode | Job_done "'t Signature"

fun step ::
  "('t, 'r, 'x) Compiler \<Rightarrow> Options \<Rightarrow> 't event \<Rightarrow>
   ('t, 'r, 'x) XlaCompilationCache \<Rightarrow> ('t, 'r, 'x) XlaCompilationCache" where
  "step compiler options (Request signature mode) c =
     snd (Compile compiler options signature mode c)"
| "step compiler options (Job_done signature) c = job_done compiler options signature c"

fun run ::
  "('t, 'r, 'x) Compiler \<Rightarrow> Options \<Rightarrow> 't event list \<Rightarrow>
   ('t, 'r, 'x) XlaCompilationCache \<Rightarrow> ('t, 'r, 'x) XlaCompilationCache" where
  "run compiler options [] c = c"
| "run compiler options (ev # evs) c = run compiler options evs (step compiler options ev c)"

definition empty_cache :: "('t, 'r, 'x) XlaCompilationCache" where
  "empty_cache =
     \<lparr>cache = Map.empty, cluster_compile_stats = Map.empty, nrof_ongoing_compilations = 0,
      compiler_invocations = []\<rparr>"

text \<open>The position of a state on the path of an entry.\<close>

fun state_rank :: "CompileState \<Rightarrow> nat" where
  "state_rank kUncompiled = 0"
| "state_rank kCompiling = 1"
| "state_rank kCompiled = 2"

text \<open>
  How often the compiler has been invoked on a signature, and the terminal state of an
  entry whose compilation failed.
\<close>

definition compilations_of :: "('t, 'r, 'x) XlaCompilationCache \<Rightarrow> 't Signature \<Rightarrow> nat" where
  "compilations_of c signature = count_list (compiler_invocations c) signature"

definition failed_with ::
  "('t, 'r, 'x) XlaCompilationCache \<Rightarrow> 't Signature \<Rightarrow> error_class \<Rightarrow> string \<Rightarrow> bool" where
  "failed_with c signature cls diagnostic \<longleftrightarrow>
     compile_state (entry_of c signature) = kCompiled \<and>
     compilation_status (entry_of c signature) = Error cls diagnostic"

text \<open>
  A compiler that fails the first time it is invoked and succeeds afterwards, two
  signatures, a heuristic that never fires, and a run: a strict request that fails,
  followed by further events.
\<close>

definition sigA :: "nat Signature" where
  "sigA = \<lparr>name = ''cluster_0'', arg_shapes = [(1, [2, 3])], arg_values = []\<rparr>"

definition failing_compiler :: "(nat, nat, nat) Compiler" where
  "failing_compiler n s = (if n = 0 then Compile_failed CompileFailure ''unsupported op'' else Compile_ok 7 None, 1000)"

definition never :: "ClusterCompileStats \<Rightarrow> bool" where
  "never st = False"

definition sigB :: "nat Signature" where
  "sigB = \<lparr>name = ''cluster_1'', arg_shapes = [], arg_values = [5]\<rparr>"

definition after_failure :: "(nat, nat, nat) XlaCompilationCache" where
  "after_failure = step failing_compiler (default_options never) (Request sigA kStrict) empty_cache"

definition later_events :: "nat event list" where
  "later_events = [Request sigA kLazy, Job_done sigA, Request sigB kStrict, Request sigA kAsync]"


text \<open>The entry after one more lookup.\<close>

definition bumped :: "('r, 'x) Entry \<Rightarrow> ('r, 'x) Entry" where
  "bumped e = e\<lparr>request_count := request_count e + 1\<rparr>"

text \<open>An entry holds the outcome of a compilation.\<close>

definition outcome_recorded ::
  "('r, 'x) compile_outcome \<Rightarrow> ('r, 'x) Entry \<Rightarrow> bool" where
  "outcome_recorded outcome e \<longleftrightarrow>
     compile_state e = kCompiled \<and>
     (case outcome of
        Compile_ok r x \<Rightarrow> compilation_status e = OK
      | Compile_failed cls d \<Rightarrow> compilation_status e = Error cls d)"

text \<open>The signature an event is about.\<close>

fun event_signature :: "'t event \<Rightarrow> 't Signature" where
  "event_signature (Request signature mode) = signature"
| "event_signature (Job_done signature) = signature"


section \<open>Properties of the fixed-point driver\<close>

lemma succ_eq_kLimit:
  assumes "k < 25"
  shows "((word_of_nat k :: int64) + 1 = kLimit) = (k = 24)"
proof -
  have "(word_of_nat k :: int64) + 1 = word_of_nat (Suc k)"
    by simp
  moreover have "kLimit = (word_of_nat 25 :: int64)"
    by (simp add: kLimit_def)
  moreover have "(word_of_nat (Suc k) = (word_of_nat 25 :: int64)) = (Suc k = 25)"
    using assms by (simp only: word_of_nat_eq_iff) (simp add: take_bit_nat_eq_self)
  ultimately show ?thesis
    by (simp only:) auto
qed

lemma run_shape_Cons:
  assumes "run_shape (Suc k) True r new"
  shows "run_shape k ch r (Inr True # new)"
  using assms unfolding run_shape_def
  by (auto simp: nth_Cons split: nat.splits sum.splits)

lemma loop_step_error:
  "pass m = (Inl e, m') \<Longrightarrow> HloPassFix_loop pass ch True ic m = (Inl e, m')"
  by (subst HloPassFix_loop.simps) simp

lemma loop_step_limit:
  "pass m = (Inr c, m') \<Longrightarrow> ic + 1 = kLimit \<Longrightarrow>
   HloPassFix_loop pass ch True ic m = (Inr False, m')"
  by (subst HloPassFix_loop.simps) simp

lemma loop_step_fixed:
  "pass m = (Inr False, m') \<Longrightarrow> ic + 1 \<noteq> kLimit \<Longrightarrow>
   HloPassFix_loop pass ch True ic m = (Inr ch, m')"
  by (subst HloPassFix_loop.simps, simp, subst HloPassFix_loop.simps, simp)

lemma loop_step_again:
  "pass m = (Inr True, m') \<Longrightarrow> ic + 1 \<noteq> kLimit \<Longrightarrow>
   HloPassFix_loop pass ch True ic m = HloPassFix_loop pass True True (ic + 1) m'"
  by (subst HloPassFix_loop.simps) simp

lemma logged_step: "pass m = (r, m') \<Longrightarrow> logged pass (m, log) = (r, (m', log @ [r]))"
  by (simp add: logged_def)

lemma logged_step_error:
  "pass m = (Inl e, m') \<Longrightarrow>
   HloPassFix_loop (logged pass) ch True ic (m, log) = (Inl e, (m', log @ [Inl e]))"
  by (rule loop_step_error) (simp add: logged_step)

lemma logged_step_limit:
  "pass m = (Inr c, m') \<Longrightarrow> ic + 1 = kLimit \<Longrightarrow>
   HloPassFix_loop (logged pass) ch True ic (m, log) = (Inr False, (m', log @ [Inr c]))"
  by (rule loop_step_limit) (simp_all add: logged_step)

lemma logged_step_fixed:
  "pass m = (Inr False, m') \<Longrightarrow> ic + 1 \<noteq> kLimit \<Longrightarrow>
   HloPassFix_loop (logged pass) ch True ic (m, log) = (Inr ch, (m', log @ [Inr False]))"
  by (rule loop_step_fixed) (simp_all add: logged_step)

lemma logged_step_again:
  "pass m = (Inr True, m') \<Longrightarrow> ic + 1 \<noteq> kLimit \<Longrightarrow>
   HloPassFix_loop (logged pass) ch True ic (m, log) =
   HloPassFix_loop (logged pass) True True (ic + 1) (m', log @ [Inr True])"
  by (rule loop_step_again) (simp_all add: logged_step)

lemma loop_logged:
  assumes "k < 25"
  shows "\<exists>r m' new.
           HloPassFix_loop (logged pass) ch True (word_of_nat k) (m, log0) = (r, (m', log0 @ new)) \<and>
           HloPassFix_loop pass ch True (word_of_nat k) m = (r, m') \<and>
           run_shape k ch r new"
  using assms
proof (induction "24 - k" arbitrary: k ch m log0)
  case 0
  then have k: "k = 24" by simp
  then have lim: "(word_of_nat k :: int64) + 1 = kLimit"
    using succ_eq_kLimit [of k] by simp
  obtain r m' where pm: "pass m = (r, m')" by (cases "pass m")
  show ?case
  proof (cases r)
    case (Inl e)
    with pm show ?thesis
      using loop_step_error [of pass m e m' ch] logged_step_error [of pass m e m' ch _ log0]
      by (intro exI [of _ "Inl e"] exI [of _ m'] exI [of _ "[Inl e]"])
         (simp add: run_shape_def k)
  next
    case (Inr c)
    with pm lim show ?thesis
      using loop_step_limit [of pass m c m' _ ch] logged_step_limit [of pass m c m' _ ch log0]
      by (intro exI [of _ "Inr False"] exI [of _ m'] exI [of _ "[Inr c]"])
         (simp add: run_shape_def k)
  qed
next
  case (Suc n)
  then have k: "k < 24" by simp
  then have nlim: "(word_of_nat k :: int64) + 1 \<noteq> kLimit"
    using succ_eq_kLimit [of k] by simp
  have suc: "(word_of_nat k :: int64) + 1 = word_of_nat (Suc k)" by simp
  obtain r m' where pm: "pass m = (r, m')" by (cases "pass m")
  show ?case
  proof (cases r)
    case (Inl e)
    with pm show ?thesis
      using loop_step_error [of pass m e m' ch] logged_step_error [of pass m e m' ch _ log0]
      by (intro exI [of _ "Inl e"] exI [of _ m'] exI [of _ "[Inl e]"])
         (use k in \<open>simp add: run_shape_def\<close>)
  next
    case (Inr c)
    show ?thesis
    proof (cases c)
      case False
      with Inr pm nlim show ?thesis
        using loop_step_fixed [of pass m m' _ ch] logged_step_fixed [of pass m m' _ ch log0]
        by (intro exI [of _ "Inr ch"] exI [of _ m'] exI [of _ "[Inr False]"])
           (use k in \<open>simp add: run_shape_def\<close>)
    next
      case True
      have "n = 24 - Suc k" "Suc k < 25" using Suc.hyps(2) k by simp_all
      from Suc.hyps(1) [OF this, of True m' "log0 @ [Inr True]"]
      obtain r' m'' new where
        a: "HloPassFix_loop (logged pass) True True (word_of_nat (Suc k)) (m', log0 @ [Inr True])
              = (r', m'', (log0 @ [Inr True]) @ new)"
        and b: "HloPassFix_loop pass True True (word_of_nat (Suc k)) m' = (r', m'')"
        and c: "run_shape (Suc k) True r' new"
        by blast
      have pmT: "pass m = (Inr True, m')" using pm Inr True by simp
      have "HloPassFix_loop (logged pass) ch True (word_of_nat k) (m, log0)
              = (r', m'', log0 @ (Inr True # new))"
        using logged_step_again [of pass m m' _ ch log0, OF pmT nlim] a by (simp only: suc) simp
      moreover have "HloPassFix_loop pass ch True (word_of_nat k) m = (r', m'')"
        using loop_step_again [of pass m m' _ ch, OF pmT nlim] b by (simp only: suc)
      ultimately show ?thesis
        using run_shape_Cons [OF c] by blast
    qed
  qed
qed


lemma loop_iterations_ok:
  "iterations_ok (HloPassFix_loop (logged pass) False True 0 (m, []))
     (HloPassFix_loop pass False True 0 m)"
proof -
  from loop_logged [of 0 pass False m "[]"]
  obtain r m' new where
    "HloPassFix_loop (logged pass) False True 0 (m, []) = (r, (m', new))"
    "HloPassFix_loop pass False True 0 m = (r, m')"
    "run_shape 0 False r new"
    by auto
  then show ?thesis
    by (auto simp: iterations_ok_def run_shape_def split: sum.splits)
qed

text \<open>
  Claim C9. \<^verbatim>\<open>HloPassFix<Pass>::Run\<close> (and \<^verbatim>\<open>RunOnModuleGroup\<close>) invokes the wrapped pass
  at least once and at most 25 times, and returns the same result over the logged pass as
  over the pass itself. Every invocation but the last reported a change. When the last
  invocation fails, its status is returned. Otherwise, when 25 invocations were made the
  result is \<open>false\<close> whatever the iterations reported; when fewer were made the last one
  reported no change and the result is \<open>true\<close> exactly when some invocation reported a
  change.
\<close>

theorem HloPassFix_Run_iterations:
  "iterations_ok (Run (logged pass) (module, [])) (Run pass module) \<and>
   iterations_ok (RunOnModuleGroup (logged pass_g) (module_group, []))
     (RunOnModuleGroup pass_g module_group)"
  unfolding Run_def RunOnModuleGroup_def
  by (intro conjI loop_iterations_ok)

text \<open>
  Two runs: a countdown from 3 reaches its fixed point at the fourth invocation and
  returns \<open>true\<close>; a pass that always changes the module is stopped after 25
  invocations and returns \<open>false\<close>.
\<close>

theorem HloPassFix_Run_iterations_witness:
  "Run (logged countdown) (3, []) = (Inr True, 0, [Inr True, Inr True, Inr True, Inr False]) \<and>
   Run countdown 3 = (Inr True, 0) \<and>
   RunOnModuleGroup (logged always_changing) (0, []) = (Inr False, 25, replicate 25 (Inr True)) \<and>
   RunOnModuleGroup always_changing 0 = (Inr False, 25) \<and>
   iterations_ok (Run (logged countdown) (3, [])) (Run countdown 3) \<and>
   iterations_ok (RunOnModuleGroup (logged always_changing) (0, []))
     (RunOnModuleGroup always_changing 0)"
proof -
  have "Run (logged countdown) (3, []) = (Inr True, 0, [Inr True, Inr True, Inr True, Inr False])"
    by code_simp
  moreover have "Run countdown 3 = (Inr True, 0)"
    by code_simp
  moreover have "RunOnModuleGroup (logged always_changing) (0, []) =
      (Inr False, 25, replicate 25 (Inr True))"
    by code_simp
  moreover have "RunOnModuleGroup always_changing 0 = (Inr False, 25)"
    by code_simp
  ultimately show ?thesis
    using HloPassFix_Run_iterations [of countdown 3 always_changing 0] by simp
qed

text \<open>
  A countdown from 24 reports no change at the 25th invocation; the counter reaches the
  limit in that same iteration and the result is \<open>false\<close>.
\<close>

lemma countdown_24:
  "Run (logged countdown) (24, []) = (Inr False, 0, replicate 24 (Inr True) @ [Inr False])"
  by code_simp


section \<open>Properties of the convolution parameters\<close>

lemma foldl_Add_in:
  "foldl (\<lambda>proto x. proto\<lparr>pb_in := Add (pb_in proto) x\<rparr>) proto xs = proto\<lparr>pb_in := pb_in proto @ xs\<rparr>"
  by (induction xs arbitrary: proto) (simp_all add: Add_def)
lemma foldl_Add_filter:
  "foldl (\<lambda>proto x. proto\<lparr>pb_filter := Add (pb_filter proto) x\<rparr>) proto xs = proto\<lparr>pb_filter := pb_filter proto @ xs\<rparr>"
  by (induction xs arbitrary: proto) (simp_all add: Add_def)
lemma foldl_Add_dilation:
  "foldl (\<lambda>proto x. proto\<lparr>pb_dilation := Add (pb_dilation proto) x\<rparr>) proto xs = proto\<lparr>pb_dilation := pb_dilation proto @ xs\<rparr>"
  by (induction xs arbitrary: proto) (simp_all add: Add_def)
lemma foldl_Add_stride:
  "foldl (\<lambda>proto x. proto\<lparr>pb_stride := Add (pb_stride proto) x\<rparr>) proto xs = proto\<lparr>pb_stride := pb_stride proto @ xs\<rparr>"
  by (induction xs arbitrary: proto) (simp_all add: Add_def)
lemma foldl_Add_padding:
  "foldl (\<lambda>proto x. proto\<lparr>pb_padding := Add (pb_padding proto) x\<rparr>) proto xs = proto\<lparr>pb_padding := pb_padding proto @ xs\<rparr>"
  by (induction xs arbitrary: proto) (simp_all add: Add_def)

lemma ToProto_fields:
  "ToProto p = \<lparr>pb_batch = cp_batch p, pb_in_depths = cp_in_depths p,
      pb_out_depths = cp_out_depths p, pb_in = cp_in p, pb_data_format = cp_data_format p,
      pb_filter = cp_filter p, pb_dilation = cp_dilation p, pb_stride = cp_stride p,
      pb_padding = cp_padding p, pb_dtype = cp_dtype p, pb_device_id = cp_device_id p,
      pb_group_count = cp_group_count p\<rparr>"
  by (simp add: ToProto_def Let_def foldl_Add_in foldl_Add_filter foldl_Add_dilation
      foldl_Add_stride foldl_Add_padding)


lemma UpdateHash_fields [simp]:
  "cp_batch (UpdateHash H p) = cp_batch p"
  "cp_in_depths (UpdateHash H p) = cp_in_depths p"
  "cp_out_depths (UpdateHash H p) = cp_out_depths p"
  "cp_in (UpdateHash H p) = cp_in p"
  "cp_data_format (UpdateHash H p) = cp_data_format p"
  "cp_filter (UpdateHash H p) = cp_filter p"
  "cp_dilation (UpdateHash H p) = cp_dilation p"
  "cp_stride (UpdateHash H p) = cp_stride p"
  "cp_padding (UpdateHash H p) = cp_padding p"
  "cp_dtype (UpdateHash H p) = cp_dtype p"
  "cp_device_id (UpdateHash H p) = cp_device_id p"
  "cp_group_count (UpdateHash H p) = cp_group_count p"
  by (simp_all add: UpdateHash_def Let_def)

lemma UpdateHash_cong:
  assumes "get_data_as_tuple p = get_data_as_tuple q"
  shows "cp_hash_code (UpdateHash H p) = cp_hash_code (UpdateHash H q)"
  using assms by (simp add: get_data_as_tuple_def UpdateHash_def Let_def)

lemma UpdateHash_idem:
  "UpdateHash H (UpdateHash H p) = UpdateHash H p"
  by (simp add: UpdateHash_def Let_def)

lemma CheckSpatialArraySize_Some:
  "CheckSpatialArraySize a = Some b \<longleftrightarrow> length a \<le> 3 \<and> b = a"
  by (auto simp: CheckSpatialArraySize_def)

lemma ConvParameters_init_constructed:
  assumes "ConvParameters_init H batch in_depths in0 data_format out_depths filter0 dilation
             stride padding dtype device_id group_count = Some p"
  shows "constructed H p"
  using assms
  by (auto simp: ConvParameters_init_def constructed_def spatial_sizes_ok_def
      CheckSpatialArraySize_Some UpdateHash_idem split: option.splits)

lemma ConvParameters_of_proto_constructed:
  assumes "ConvParameters_of_proto H proto = Some p"
  shows "constructed H p"
  using assms
  by (auto simp: ConvParameters_of_proto_def constructed_def spatial_sizes_ok_def
      CheckSpatialArraySize_Some UpdateHash_idem split: option.splits)

lemma constructed_init:
  assumes "constructed H p"
  shows "ConvParameters_init H (cp_batch p) (cp_in_depths p) (cp_in p) (cp_data_format p)
           (cp_out_depths p) (cp_filter p) (cp_dilation p) (cp_stride p) (cp_padding p)
           (cp_dtype p) (cp_device_id p) (cp_group_count p) = Some p"
proof -
  have "UpdateHash H
          \<lparr>cp_batch = cp_batch p, cp_in_depths = cp_in_depths p, cp_out_depths = cp_out_depths p,
           cp_in = cp_in p, cp_data_format = cp_data_format p, cp_filter = cp_filter p,
           cp_dilation = cp_dilation p, cp_stride = cp_stride p, cp_padding = cp_padding p,
           cp_dtype = cp_dtype p, cp_device_id = cp_device_id p,
           cp_group_count = cp_group_count p, cp_hash_code = 0\<rparr> = UpdateHash H p"
    by (simp add: UpdateHash_def Let_def)
  moreover have "UpdateHash H p = p"
    using assms by (simp add: constructed_def UpdateHash_def Let_def)
  ultimately show ?thesis
    using assms
    by (simp add: ConvParameters_init_def constructed_def spatial_sizes_ok_def
        CheckSpatialArraySize_def)
qed

text \<open>
  So the invariant describes exactly the objects that the constructor can produce.
\<close>

lemma constructed_iff_init:
  "constructed H p \<longleftrightarrow>
     (\<exists>batch in_depths in0 data_format out_depths filter0 dilation stride padding dtype
        device_id group_count.
        ConvParameters_init H batch in_depths in0 data_format out_depths filter0 dilation
          stride padding dtype device_id group_count = Some p)"
proof
  assume "constructed H p"
  then show "\<exists>batch in_depths in0 data_format out_depths filter0 dilation stride padding dtype
        device_id group_count.
        ConvParameters_init H batch in_depths in0 data_format out_depths filter0 dilation
          stride padding dtype device_id group_count = Some p"
    using constructed_init by blast
next
  assume "\<exists>batch in_depths in0 data_format out_depths filter0 dilation stride padding dtype
        device_id group_count.
        ConvParameters_init H batch in_depths in0 data_format out_depths filter0 dilation
          stride padding dtype device_id group_count = Some p"
  then show "constructed H p"
    using ConvParameters_init_constructed by blast
qed

lemma of_proto_ToProto:
  assumes "spatial_sizes_ok p"
  shows "ConvParameters_of_proto H (ToProto p) = Some (UpdateHash H p)"
proof -
  have "UpdateHash H
          \<lparr>cp_batch = cp_batch p, cp_in_depths = cp_in_depths p, cp_out_depths = cp_out_depths p,
           cp_in = cp_in p, cp_data_format = cp_data_format p, cp_filter = cp_filter p,
           cp_dilation = cp_dilation p, cp_stride = cp_stride p, cp_padding = cp_padding p,
           cp_dtype = cp_dtype p, cp_device_id = cp_device_id p,
           cp_group_count = cp_group_count p, cp_hash_code = 0\<rparr> = UpdateHash H p"
    by (simp add: UpdateHash_def Let_def)
  then show ?thesis
    using assms
    by (simp add: ConvParameters_of_proto_def ToProto_fields spatial_sizes_ok_def
        CheckSpatialArraySize_def)
qed

text \<open>
  Claim C10. For every \<^verbatim>\<open>ConvParameters\<close> object \<open>p\<close> (its spatial arrays have at most
  three elements and its hash code is the one \<^verbatim>\<open>UpdateHash\<close> computed), constructing an
  object from \<open>ToProto p\<close> succeeds and yields an object equal to \<open>p\<close> under
  \<^verbatim>\<open>operator==\<close> with the same \<^verbatim>\<open>hash()\<close>; and any object that compares equal to \<open>p\<close>
  has the same hash.
\<close>

theorem ConvParameters_proto_roundtrip:
  assumes "constructed H p"
  shows "(\<exists>p'. ConvParameters_of_proto H (ToProto p) = Some p' \<and>
               ConvParameters_eq p' p \<and> hash p' = hash p) \<and>
         (\<forall>q. constructed H q \<longrightarrow> ConvParameters_eq p q \<longrightarrow> hash p = hash q)"
proof (intro conjI allI impI)
  have "ConvParameters_of_proto H (ToProto p) = Some (UpdateHash H p)"
    using assms by (simp add: of_proto_ToProto constructed_def)
  moreover have "ConvParameters_eq (UpdateHash H p) p"
    by (simp add: ConvParameters_eq_def get_data_as_tuple_def)
  moreover have "hash (UpdateHash H p) = hash p"
    using assms by (simp add: hash_def constructed_def)
  ultimately show "\<exists>p'. ConvParameters_of_proto H (ToProto p) = Some p' \<and>
      ConvParameters_eq p' p \<and> hash p' = hash p"
    by blast
next
  fix q
  assume q: "constructed H q" and eq: "ConvParameters_eq p q"
  have "cp_hash_code (UpdateHash H p) = cp_hash_code (UpdateHash H q)"
    using eq by (intro UpdateHash_cong) (simp add: ConvParameters_eq_def)
  then show "hash p = hash q"
    using assms q by (simp add: hash_def constructed_def)
qed

lemma example_params_init:
  "ConvParameters_init example_combine 1 2 [3, 4] 0 5 [1, 1] [1, 1] [1, 1] [0, 0] 1 0 1
     = Some example_params"
  by code_simp

theorem ConvParameters_proto_roundtrip_witness:
  "constructed example_combine example_params \<and>
   ConvParameters_of_proto example_combine (ToProto example_params) = Some example_params \<and>
   ConvParameters_eq example_params example_params \<and>
   hash example_params = 14161303925198268106"
proof -
  have c: "constructed example_combine example_params"
    by (rule ConvParameters_init_constructed [OF example_params_init])
  have h: "hash example_params = 14161303925198268106"
    by (simp add: hash_def example_params_def)
  from ConvParameters_proto_roundtrip [OF c]
  obtain p' where "ConvParameters_of_proto example_combine (ToProto example_params) = Some p'"
    and "ConvParameters_eq p' example_params" and "hash p' = hash example_params"
    by blast
  moreover have "ConvParameters_of_proto example_combine (ToProto example_params)
      = Some example_params"
    by code_simp
  ultimately show ?thesis
    using c h by simp
qed

text \<open>A message with a spatial array of four elements fails the size check.\<close>

lemma of_proto_oversized:
  "ConvParameters_of_proto H ((ToProto example_params)\<lparr>pb_in := [1, 2, 3, 4]\<rparr>) = None"
  by (simp add: ConvParameters_of_proto_def CheckSpatialArraySize_def)


section \<open>Properties of the compilation cache\<close>

lemma entry_of_update [simp]:
  "entry_of (c\<lparr>cache := (cache c)(s \<mapsto> e)\<rparr>) s' = (if s' = s then e else entry_of c s')"
  by (simp add: entry_of_def)

lemma entry_of_nrof [simp]:
  "entry_of (c\<lparr>nrof_ongoing_compilations := n\<rparr>) s = entry_of c s"
  by (simp add: entry_of_def)

lemma entry_of_get_or_create [simp]: "entry_of (get_or_create s c) s' = entry_of c s'"
  by (simp add: get_or_create_def entry_of_def split: option.splits)

lemma invocations_get_or_create [simp]:
  "compiler_invocations (get_or_create s c) = compiler_invocations c"
  by (simp add: get_or_create_def split: option.splits)

lemma stats_get_or_create [simp]:
  "cluster_compile_stats (get_or_create s c) = cluster_compile_stats c"
  by (simp add: get_or_create_def split: option.splits)

lemma entry_of_begin [simp]:
  "entry_of (begin_compilation s c) s' =
     (if s' = s then (entry_of c s)\<lparr>compile_state := kCompiling\<rparr> else entry_of c s')"
  by (simp add: begin_compilation_def entry_of_def)

lemma invocations_begin [simp]:
  "compiler_invocations (begin_compilation s c) = compiler_invocations c"
  by (simp add: begin_compilation_def)

lemma record_outcome_state [simp]: "compile_state (record_outcome outcome e) = kCompiled"
  by (simp add: record_outcome_def split: compile_outcome.splits)

lemma record_outcome_count [simp]: "request_count (record_outcome outcome e) = request_count e"
  by (simp add: record_outcome_def split: compile_outcome.splits)

lemma record_outcome_failed [simp]:
  "compilation_status (record_outcome (Compile_failed cls d) e) = Error cls d"
  by (simp add: record_outcome_def)

lemma entry_of_finish:
  "entry_of (finish_compilation compiler options s c) s' =
     (if s' = s \<and> compile_state (entry_of c s) = kCompiling
      then record_outcome (fst (compiler (length (compiler_invocations c)) s)) (entry_of c s)
      else entry_of c s')"
  by (simp add: finish_compilation_def entry_of_def split: prod.splits)

lemma invocations_finish:
  "compiler_invocations (finish_compilation compiler options s c) =
     (if compile_state (entry_of c s) = kCompiling then compiler_invocations c @ [s]
      else compiler_invocations c)"
  by (simp add: finish_compilation_def split: prod.splits)

lemma entry_of_job_done:
  "entry_of (job_done compiler options s c) s' =
     (if s' = s \<and> compile_state (entry_of c s) = kCompiling
      then record_outcome (fst (compiler (length (compiler_invocations c)) s)) (entry_of c s)
      else entry_of c s')"
  by (simp add: job_done_def entry_of_finish)

lemma invocations_job_done:
  "compiler_invocations (job_done compiler options s c) =
     (if compile_state (entry_of c s) = kCompiling then compiler_invocations c @ [s]
      else compiler_invocations c)"
  by (simp add: job_done_def invocations_finish)

lemma entry_of_submit:
  "entry_of (snd (submit options s c)) s' =
     (if s' = s \<and> sint (nrof_ongoing_compilations c) < sint (async_max_in_flight options)
      then (entry_of c s)\<lparr>compile_state := kCompiling\<rparr> else entry_of c s')"
  by (simp add: submit_def)

lemma invocations_submit [simp]:
  "compiler_invocations (snd (submit options s c)) = compiler_invocations c"
  by (simp add: submit_def)

lemma Compile_other:
  "s' \<noteq> s \<Longrightarrow> entry_of (snd (Compile compiler options s mode c)) s' = entry_of c s'"
  by (simp add: Compile_def decide_and_compile_def Let_def compile_now_def entry_of_finish
      entry_of_job_done entry_of_submit split: CompileState.splits CompileMode.splits)

lemma Compile_compiled:
  assumes "compile_state (entry_of c s) = kCompiled"
  shows "entry_of (snd (Compile compiler options s mode c)) s = bumped (entry_of c s)"
    and "compiler_invocations (snd (Compile compiler options s mode c)) = compiler_invocations c"
    and "fst (Compile compiler options s mode c) = reply_of (bumped (entry_of c s))"
  using assms
  by (simp_all add: Compile_def decide_and_compile_def Let_def bumped_def)

lemma Compile_rank:
  "state_rank (compile_state (entry_of c s'))
     \<le> state_rank (compile_state (entry_of (snd (Compile compiler options s mode c)) s'))"
  by (cases "s' = s")
     (simp_all add: Compile_def decide_and_compile_def Let_def compile_now_def entry_of_finish
      entry_of_job_done entry_of_submit split: CompileState.splits CompileMode.splits)


lemma outcome_recorded_record [simp]: "outcome_recorded outcome (record_outcome outcome e)"
  by (simp add: outcome_recorded_def record_outcome_def split: compile_outcome.splits)

lemma Compile_effect:
  "compiler_invocations (snd (Compile compiler options s mode c)) = compiler_invocations c \<or>
   compiler_invocations (snd (Compile compiler options s mode c)) = compiler_invocations c @ [s] \<and>
   outcome_recorded (fst (compiler (length (compiler_invocations c)) s))
     (entry_of (snd (Compile compiler options s mode c)) s)"
  by (simp add: Compile_def decide_and_compile_def Let_def compile_now_def entry_of_finish
      invocations_finish entry_of_job_done invocations_job_done
      split: CompileState.splits CompileMode.splits)

lemma job_done_effect:
  "compiler_invocations (job_done compiler options s c) = compiler_invocations c \<or>
   compiler_invocations (job_done compiler options s c) = compiler_invocations c @ [s] \<and>
   outcome_recorded (fst (compiler (length (compiler_invocations c)) s))
     (entry_of (job_done compiler options s c) s)"
  by (simp add: entry_of_job_done invocations_job_done)

lemma step_effect:
  "compiler_invocations (step compiler options ev c) = compiler_invocations c \<or>
   compiler_invocations (step compiler options ev c) = compiler_invocations c @ [event_signature ev] \<and>
   outcome_recorded (fst (compiler (length (compiler_invocations c)) (event_signature ev)))
     (entry_of (step compiler options ev c) (event_signature ev))"
proof (cases ev)
  case (Request s mode)
  then show ?thesis
    using Compile_effect [of compiler options s mode c] by simp
next
  case (Job_done s)
  then show ?thesis
    using job_done_effect [of compiler options s c] by simp
qed

lemma step_other:
  "event_signature ev \<noteq> s \<Longrightarrow> entry_of (step compiler options ev c) s = entry_of c s"
  by (cases ev) (simp_all add: Compile_other entry_of_job_done)

lemma step_other_compilations:
  assumes "event_signature ev \<noteq> s"
  shows "compilations_of (step compiler options ev c) s = compilations_of c s"
  using step_effect [of compiler options ev c] assms
  by (auto simp: compilations_of_def)

lemma step_rank:
  "state_rank (compile_state (entry_of c s))
     \<le> state_rank (compile_state (entry_of (step compiler options ev c) s))"
proof (cases ev)
  case (Request s' mode)
  then show ?thesis by (simp add: Compile_rank)
next
  case (Job_done s')
  then show ?thesis by (simp add: entry_of_job_done)
qed

lemma run_rank:
  "state_rank (compile_state (entry_of c s))
     \<le> state_rank (compile_state (entry_of (run compiler options evs c) s))"
proof (induction evs arbitrary: c)
  case Nil
  show ?case by simp
next
  case (Cons ev evs)
  have "state_rank (compile_state (entry_of c s))
      \<le> state_rank (compile_state (entry_of (step compiler options ev c) s))"
    by (rule step_rank)
  also have "\<dots> \<le> state_rank (compile_state (entry_of
      (run compiler options evs (step compiler options ev c)) s))"
    by (rule Cons.IH)
  finally show ?case by simp
qed

lemma step_failure_recorded:
  assumes more: "compilations_of c s < compilations_of (step compiler options ev c) s"
    and fails: "fst (compiler (length (compiler_invocations c)) s) = Compile_failed cls d"
  shows "failed_with (step compiler options ev c) s cls d"
proof -
  have ev: "event_signature ev = s"
    using more step_other_compilations [of ev s compiler options c] by fastforce
  from step_effect [of compiler options ev c] more
  have "outcome_recorded (fst (compiler (length (compiler_invocations c)) s))
      (entry_of (step compiler options ev c) s)"
    by (auto simp: compilations_of_def ev)
  then show ?thesis
    using fails by (simp add: failed_with_def outcome_recorded_def)
qed

lemma step_compiled:
  assumes "compile_state (entry_of c s) = kCompiled"
  shows "compile_state (entry_of (step compiler options ev c) s) = kCompiled"
    and "compilation_status (entry_of (step compiler options ev c) s)
           = compilation_status (entry_of c s)"
    and "compilations_of (step compiler options ev c) s = compilations_of c s"
proof -
  show "compile_state (entry_of (step compiler options ev c) s) = kCompiled"
    using assms
    by (cases ev; cases "event_signature ev = s")
       (auto simp: Compile_compiled bumped_def Compile_other entry_of_job_done)
  show "compilation_status (entry_of (step compiler options ev c) s)
           = compilation_status (entry_of c s)"
    using assms
    by (cases ev; cases "event_signature ev = s")
       (auto simp: Compile_compiled bumped_def Compile_other entry_of_job_done)
  show "compilations_of (step compiler options ev c) s = compilations_of c s"
  proof (cases "event_signature ev = s")
    case True
    with assms show ?thesis
      by (cases ev) (simp_all add: Compile_compiled compilations_of_def invocations_job_done)
  next
    case False
    then show ?thesis by (rule step_other_compilations)
  qed
qed

lemma run_failed:
  assumes "failed_with c s cls d"
  shows "failed_with (run compiler options evs c) s cls d"
    and "compilations_of (run compiler options evs c) s = compilations_of c s"
  using assms
proof (induction evs arbitrary: c)
  case Nil
  {
    case 1
    then show ?case by simp
  next
    case 2
    then show ?case by simp
  }
next
  case (Cons ev evs)
  {
    case 1
    then have "failed_with (step compiler options ev c) s cls d"
      by (simp add: failed_with_def step_compiled)
    then show ?case
      using Cons.IH(1) by simp
  next
    case 2
    then have f: "failed_with (step compiler options ev c) s cls d"
      by (simp add: failed_with_def step_compiled)
    have "compilations_of (step compiler options ev c) s = compilations_of c s"
      using 2 by (simp add: failed_with_def step_compiled)
    then show ?case
      using Cons.IH(2) [OF f] by simp
  }
qed

lemma Compile_failed_reply:
  assumes "failed_with c s cls d"
  shows "fst (Compile compiler options s mode c) = (Error cls d, None, None)"
  using assms
  by (simp add: failed_with_def Compile_compiled reply_of_def bumped_def)

text \<open>
  Claim C2. Along every sequence of requests and job completions the compile state of
  every entry only moves forward on the path \<^verbatim>\<open>kUncompiled\<close>, \<^verbatim>\<open>kCompiling\<close>,
  \<^verbatim>\<open>kCompiled\<close>. A step in which the compiler is invoked on a signature and fails leaves
  the entry in state \<^verbatim>\<open>kCompiled\<close> with the error as its status. Once an entry is in that
  state it stays there with the same status whatever happens next, the compiler is never
  invoked on its signature again, and every later request for the signature, in any
  mode, is answered with the recorded error and no result.
\<close>

theorem Entry_state_machine:
  "state_rank (compile_state (entry_of c signature))
     \<le> state_rank (compile_state (entry_of (run compiler options evs c) signature)) \<and>
   (compilations_of c signature < compilations_of (step compiler options ev c) signature \<and>
    fst (compiler (length (compiler_invocations c)) signature) = Compile_failed cls diagnostic
      \<longrightarrow> failed_with (step compiler options ev c) signature cls diagnostic) \<and>
   (failed_with c signature cls diagnostic \<longrightarrow>
      failed_with (run compiler options evs c) signature cls diagnostic \<and>
      compilations_of (run compiler options evs c) signature = compilations_of c signature \<and>
      fst (Compile compiler options signature mode (run compiler options evs c))
        = (Error cls diagnostic, None, None))"
proof (intro conjI impI)
  show "state_rank (compile_state (entry_of c signature))
     \<le> state_rank (compile_state (entry_of (run compiler options evs c) signature))"
    by (rule run_rank)
next
  assume "compilations_of c signature < compilations_of (step compiler options ev c) signature \<and>
    fst (compiler (length (compiler_invocations c)) signature) = Compile_failed cls diagnostic"
  then show "failed_with (step compiler options ev c) signature cls diagnostic"
    by (simp add: step_failure_recorded)
next
  assume f: "failed_with c signature cls diagnostic"
  then show f': "failed_with (run compiler options evs c) signature cls diagnostic"
    by (rule run_failed)
  show "compilations_of (run compiler options evs c) signature = compilations_of c signature"
    using f by (rule run_failed)
  show "fst (Compile compiler options signature mode (run compiler options evs c))
      = (Error cls diagnostic, None, None)"
    using f' by (rule Compile_failed_reply)
qed


text \<open>The run, evaluated.\<close>

lemma after_failure_eval:
  "after_failure =
     \<lparr>cache = [sigA \<mapsto> \<lparr>compile_state = kCompiled, request_count = 1,
                compilation_status = Error CompileFailure ''unsupported op'',
                compilation_result = None, executable = None\<rparr>],
      cluster_compile_stats = [''cluster_0'' \<mapsto> \<lparr>compile_count = 1, execution_count = 0,
                cumulative_compile_time_us = 1000, max_compile_time_s = 0,
                is_megamorphic = False\<rparr>],
      nrof_ongoing_compilations = 0,
      compiler_invocations = [sigA]\<rparr>"
  by (simp add: after_failure_def Compile_def decide_and_compile_def get_or_create_def
      compile_now_def begin_compilation_def finish_compilation_def entry_of_def stats_of_def
      record_attempt_def record_outcome_def new_entry_def new_stats_def empty_cache_def
      default_options_def kDefaultCompilationThreshold_def never_def failing_compiler_def
      sigA_def Let_def)

lemma later_events_eval:
  "compiler_invocations (run failing_compiler (default_options never) later_events after_failure)
     = [sigA, sigB]"
  "entry_of (run failing_compiler (default_options never) later_events after_failure) sigA =
     \<lparr>compile_state = kCompiled, request_count = 3,
      compilation_status = Error CompileFailure ''unsupported op'',
      compilation_result = None, executable = None\<rparr>"
  by (simp_all add: after_failure_eval later_events_def Compile_def decide_and_compile_def
      get_or_create_def job_done_def submit_def
      compile_now_def begin_compilation_def finish_compilation_def entry_of_def stats_of_def
      record_attempt_def record_outcome_def new_entry_def new_stats_def reply_of_def
      default_options_def kDefaultCompilationThreshold_def never_def failing_compiler_def
      sigA_def sigB_def Let_def)

theorem Entry_state_machine_witness:
  "compilations_of (empty_cache :: (nat, nat, nat) XlaCompilationCache) sigA
     < compilations_of after_failure sigA \<and>
   fst (failing_compiler (length (compiler_invocations (empty_cache :: (nat, nat, nat) XlaCompilationCache))) sigA)
     = Compile_failed CompileFailure ''unsupported op'' \<and>
   failed_with after_failure sigA CompileFailure ''unsupported op'' \<and>
   failed_with (run failing_compiler (default_options never) later_events after_failure)
     sigA CompileFailure ''unsupported op'' \<and>
   compilations_of (run failing_compiler (default_options never) later_events after_failure) sigA = 1 \<and>
   fst (Compile failing_compiler (default_options never) sigA kStrict
         (run failing_compiler (default_options never) later_events after_failure))
     = (Error CompileFailure ''unsupported op'', None, None)"
proof -
  have a: "compilations_of (empty_cache :: (nat, nat, nat) XlaCompilationCache) sigA
      < compilations_of after_failure sigA"
    by (simp add: compilations_of_def after_failure_eval empty_cache_def)
  have b: "fst (failing_compiler
      (length (compiler_invocations (empty_cache :: (nat, nat, nat) XlaCompilationCache))) sigA)
      = Compile_failed CompileFailure ''unsupported op''"
    by (simp add: failing_compiler_def empty_cache_def)
  have c: "compilations_of after_failure sigA = 1"
    by (simp add: compilations_of_def after_failure_eval)
  from Entry_state_machine [of empty_cache sigA failing_compiler "default_options never" "[]"
      "Request sigA kStrict" CompileFailure "''unsupported op''" kStrict] a b
  have f: "failed_with after_failure sigA CompileFailure ''unsupported op''"
    by (simp add: after_failure_def)
  from Entry_state_machine [of after_failure sigA failing_compiler "default_options never"
      later_events "Request sigA kStrict" CompileFailure "''unsupported op''" kStrict] f c
  show ?thesis
    using a b by simp
qed

end
